theory Spec2Isabelle
  imports Main "HOL-Library.DAList" "HOL-Library.Sublist"
begin

section \<open>Text, configuration and the random source\<close>

text \<open>
  A Python \<open>str\<close> is a sequence of Unicode code points, and \<open>len\<close> counts code points.
  The reply texts of \<open>main.py\<close> contain emoji, which lie far beyond one byte, so a string
  is modelled as the list of its code points. \<open>py_str\<close> embeds an ASCII literal.
\<close>

type_synonym str = "nat list"

definition py_str :: "string \<Rightarrow> str" where
  "py_str s = map of_char s"

text \<open>\<open>config.py\<close>, lines 14 to 16, and \<open>ADMIN_IDS\<close> of \<open>main.py\<close>, line 86.\<close>

definition FREE_MESSAGES_LIMIT :: int where
  "FREE_MESSAGES_LIMIT = 2"

definition CREDITS_PER_MESSAGE :: int where
  "CREDITS_PER_MESSAGE = 2"

definition ADMIN_IDS :: "int list" where
  "ADMIN_IDS = [7517832119, 7408188866, 7839114402]"

text \<open>The sentinel city of a user who has not chosen one.\<close>

definition non_selezionata :: str where
  "non_selezionata = py_str ''non selezionata''"

text \<open>
  The module \<open>random\<close> is modelled as an infinite supply of natural numbers: \<open>r 0\<close> is the
  next number drawn and \<open>rng_skip k r\<close> is the supply after \<open>k\<close> draws. A draw from a
  sequence of length \<open>n\<close> takes the element at index \<open>r 0 mod n\<close>, so every element can
  be drawn and nothing else can. \<open>random.choice\<close> raises \<open>IndexError\<close> on an empty
  sequence, which is the value \<open>None\<close>.
\<close>

type_synonym rng = "nat \<Rightarrow> nat"

definition rng_skip :: "nat \<Rightarrow> rng \<Rightarrow> rng" where
  "rng_skip k r = (\<lambda>i. r (i + k))"

definition random_choice :: "'a list \<Rightarrow> rng \<Rightarrow> ('a \<times> rng) option" where
  "random_choice seq r =
     (if seq = [] then None else Some (seq ! (r 0 mod length seq), rng_skip 1 r))"

text \<open>\<open>string.ascii_uppercase + string.digits\<close>, the population of \<open>generate_user_id\<close>.\<close>

definition code_alphabet :: str where
  "code_alphabet = py_str ''ABCDEFGHIJKLMNOPQRSTUVWXYZ0123456789''"

text \<open>
  \<open>generate_user_id\<close> (lines 91 to 95): \<open>random.choices(population, k=5)\<close> draws five
  elements of the population, with replacement, and the code is their concatenation.
\<close>

definition generate_user_id :: "rng \<Rightarrow> str \<times> rng" where
  "generate_user_id r =
     (map (\<lambda>i. code_alphabet ! (r i mod length code_alphabet)) [0..<5], rng_skip 5 r)"


section \<open>The user database\<close>

text \<open>
  \<open>load_user_database\<close> reads the file \<open>users_database.txt\<close> into a dictionary from
  the Telegram identity to the four fields of a user, and \<open>save_user_to_database\<close>
  writes the whole dictionary back, one line \<open>id|unique_id|credits|city|free\<close> per entry.
  The durable state is modelled as the dictionary that \<open>load_user_database\<close> returns:
  a Python \<open>dict\<close> has unique keys and keeps insertion order (assigning to an existing key
  keeps its position, a new key goes to the end), which is an association list with
  distinct keys under \<open>DAList.update\<close>. The line format itself is not modelled; every value
  that the program writes (the codes of \<open>generate_user_id\<close>, the validated city names,
  the sentinel, integers) is free of the separator and of line breaks, so that a
  dictionary that was written is read back unchanged. Failures of the file system are
  outside the model.
\<close>

record user_data =
  unique_id :: str
  credits :: int
  city :: str
  free_messages_used :: int

type_synonym users = "(int, user_data) alist"

text \<open>
  \<open>save_user_to_database\<close> (lines 126 to 150). For an identity that is already stored,
  a \<open>city\<close> equal to the sentinel and a \<open>free_messages_used\<close> equal to 0 count as
  "not provided" and the stored values are kept.
\<close>

definition save_user_to_database :: "int \<Rightarrow> str \<Rightarrow> int \<Rightarrow> str \<Rightarrow> int \<Rightarrow> users \<Rightarrow> users" where
  "save_user_to_database telegram_id uid creds cty fmu users =
     (let cty' = (case DAList.lookup users telegram_id of
                    Some old \<Rightarrow> if cty = non_selezionata then city old else cty
                  | None \<Rightarrow> cty);
          fmu' = (case DAList.lookup users telegram_id of
                    Some old \<Rightarrow> if fmu = 0 then free_messages_used old else fmu
                  | None \<Rightarrow> fmu)
      in DAList.update telegram_id
           \<lparr>unique_id = uid, credits = creds, city = cty', free_messages_used = fmu'\<rparr> users)"

text \<open>
  The loop of \<open>get_or_create_user\<close> (lines 166 and 167): while some stored user has the
  candidate code, draw another one. Nothing bounds the number of rounds, so the loop is a
  partial function and \<open>None\<close> stands for a loop that never ends.
\<close>

partial_function (option) unique_id_loop :: "user_data list \<Rightarrow> str \<Rightarrow> rng \<Rightarrow> (str \<times> rng) option" where
  "unique_id_loop vals uid r =
     (if list_ex (\<lambda>data. unique_id data = uid) vals
      then unique_id_loop vals (fst (generate_user_id r)) (snd (generate_user_id r))
      else Some (uid, r))"

text \<open>
  \<open>get_or_create_user\<close> (lines 152 to 170) returns the tuple
  \<open>(unique_id, credits, city, free_messages_used)\<close>, together with the database and the
  random supply after the call.
\<close>

definition get_or_create_user ::
  "int \<Rightarrow> users \<Rightarrow> rng \<Rightarrow> ((str \<times> int \<times> str \<times> int) \<times> users \<times> rng) option" where
  "get_or_create_user telegram_id users r =
     (case DAList.lookup users telegram_id of
        Some data \<Rightarrow>
          Some ((unique_id data, credits data, city data, free_messages_used data), users, r)
      | None \<Rightarrow>
          (case unique_id_loop (map snd (DAList.impl_of users))
                  (fst (generate_user_id r)) (snd (generate_user_id r)) of
             None \<Rightarrow> None
           | Some (uid, r') \<Rightarrow>
               Some ((uid, 0, non_selezionata, 0),
                     save_user_to_database telegram_id uid 0 non_selezionata 0 users, r')))"

text \<open>
  \<open>find_user_by_unique_id\<close> (lines 172 to 180): the first entry, in the order of the
  dictionary, that has the code; \<open>None\<close> stands for the triple \<open>(None, None, None)\<close>.
\<close>

definition find_user_by_unique_id :: "str \<Rightarrow> users \<Rightarrow> (int \<times> int \<times> str) option" where
  "find_user_by_unique_id uid users =
     (case find (\<lambda>(telegram_id, data). unique_id data = uid) (DAList.impl_of users) of
        None \<Rightarrow> None
      | Some (telegram_id, data) \<Rightarrow> Some (telegram_id, credits data, city data))"

definition is_admin :: "int \<Rightarrow> bool" where
  "is_admin user_id = (user_id \<in> set ADMIN_IDS)"


section \<open>Operations of \<open>str\<close>\<close>

text \<open>
  The characters that \<open>str.strip()\<close> and \<open>str.split()\<close> treat as whitespace: the code
  points for which \<open>str.isspace\<close> holds.
\<close>

definition is_space :: "nat \<Rightarrow> bool" where
  "is_space c \<longleftrightarrow>
     (9 \<le> c \<and> c \<le> 13) \<or> (28 \<le> c \<and> c \<le> 32) \<or> c = 133 \<or> c = 160 \<or> c = 5760 \<or>
     (8192 \<le> c \<and> c \<le> 8202) \<or> c = 8232 \<or> c = 8233 \<or> c = 8239 \<or> c = 8287 \<or> c = 12288"

definition py_strip :: "str \<Rightarrow> str" where
  "py_strip s = rev (dropWhile is_space (rev (dropWhile is_space s)))"

text \<open>
  \<open>str.lower()\<close> and \<open>str.upper()\<close> on the ASCII letters. The case mappings of Unicode
  beyond ASCII are not modelled: such code points are left as they are. No theorem below
  depends on what the two functions do to a character.
\<close>

definition py_lower :: "str \<Rightarrow> str" where
  "py_lower s = map (\<lambda>c. if 65 \<le> c \<and> c \<le> 90 then c + 32 else c) s"

definition py_upper :: "str \<Rightarrow> str" where
  "py_upper s = map (\<lambda>c. if 97 \<le> c \<and> c \<le> 122 then c - 32 else c) s"

text \<open>\<open>sub in s\<close>: the string \<open>sub\<close> occurs in \<open>s\<close> as a contiguous block.\<close>

primrec py_in :: "str \<Rightarrow> str \<Rightarrow> bool" where
  "py_in sub [] = (sub = [])"
| "py_in sub (c # cs) = (prefix sub (c # cs) \<or> py_in sub cs)"

text \<open>\<open>s.split()\<close>: the maximal blocks of \<open>s\<close> without whitespace, in order.\<close>

fun split_ws :: "str \<Rightarrow> str \<Rightarrow> str list" where
  "split_ws acc [] = (if acc = [] then [] else [rev acc])"
| "split_ws acc (c # cs) =
     (if is_space c then (if acc = [] then [] else [rev acc]) @ split_ws [] cs
      else split_ws (c # acc) cs)"

definition py_split :: "str \<Rightarrow> str list" where
  "py_split s = split_ws [] s"

text \<open>
  \<open>s.split(sep)\<close> for a separator that is not empty (both separators of \<open>main.py\<close> end
  in a colon): the occurrences of \<open>sep\<close> are found from left to right, without overlap,
  and the result is never the empty list.
\<close>

fun split_sep :: "str \<Rightarrow> str \<Rightarrow> str \<Rightarrow> str list" where
  "split_sep sep acc [] = [rev acc]"
| "split_sep sep acc (c # cs) =
     (if sep \<noteq> [] \<and> prefix sep (c # cs)
      then rev acc # split_sep sep [] (drop (length sep) (c # cs))
      else split_sep sep (c # acc) cs)"

definition py_split_sep :: "str \<Rightarrow> str \<Rightarrow> str list" where
  "py_split_sep sep s = split_sep sep [] s"

text \<open>
  \<open>int(s)\<close> on a string: whitespace around the number is ignored, a sign may come first,
  and the digits may be grouped by single underscores. \<open>None\<close> is \<open>ValueError\<close>. Only
  the ASCII digits are modelled.
\<close>

fun digits_value :: "nat \<Rightarrow> bool \<Rightarrow> str \<Rightarrow> nat option" where
  "digits_value acc after_digit [] = (if after_digit then Some acc else None)"
| "digits_value acc after_digit (c # cs) =
     (if 48 \<le> c \<and> c \<le> 57 then digits_value (10 * acc + (c - 48)) True cs
      else if c = 95 \<and> after_digit then digits_value acc False cs
      else None)"

definition py_int :: "str \<Rightarrow> int option" where
  "py_int s =
     (case py_strip s of
        [] \<Rightarrow> None
      | c # cs \<Rightarrow>
          if c = 45 then map_option (\<lambda>n. - int n) (digits_value 0 False cs)
          else if c = 43 then map_option int (digits_value 0 False cs)
          else map_option int (digits_value 0 False (c # cs)))"


section \<open>The quota: free messages, then credits\<close>

text \<open>
  \<open>can_user_send_message\<close> (lines 666 to 684) and \<open>consume_user_message\<close> (lines 686
  to 706). Both begin with \<open>get_or_create_user\<close>, so both create the record of an
  identity that has none. The handler \<open>except Exception\<close>, which answers
  \<open>(False, "error")\<close>, is reached only by a failure of the file system.
\<close>

definition can_user_send_message ::
  "int \<Rightarrow> users \<Rightarrow> rng \<Rightarrow> ((bool \<times> str) \<times> users \<times> rng) option" where
  "can_user_send_message user_id users r =
     (case get_or_create_user user_id users r of
        None \<Rightarrow> None
      | Some ((uid, creds, cty, fmu), users', r') \<Rightarrow>
          if fmu < FREE_MESSAGES_LIMIT then Some ((True, py_str ''free''), users', r')
          else if creds \<ge> CREDITS_PER_MESSAGE then Some ((True, py_str ''credits''), users', r')
          else Some ((False, py_str ''no_credits''), users', r'))"

definition consume_user_message ::
  "int \<Rightarrow> users \<Rightarrow> rng \<Rightarrow> ((bool \<times> str) \<times> users \<times> rng) option" where
  "consume_user_message user_id users r =
     (case get_or_create_user user_id users r of
        None \<Rightarrow> None
      | Some ((uid, creds, cty, fmu), users', r') \<Rightarrow>
          if fmu < FREE_MESSAGES_LIMIT
          then Some ((True, py_str ''free_message_used''),
                     save_user_to_database user_id uid creds cty (fmu + 1) users', r')
          else if creds \<ge> CREDITS_PER_MESSAGE
          then Some ((True, py_str ''credits_used''),
                     save_user_to_database user_id uid (creds - CREDITS_PER_MESSAGE) cty fmu users', r')
          else Some ((False, py_str ''insufficient_credits''), users', r'))"


section \<open>The command \<open>/ricarica\<close>\<close>

text \<open>
  What the handler reads of a Telegram message: \<open>message.from_user.id\<close>,
  \<open>message.chat.id\<close> and \<open>message.text\<close>.
\<close>

record message =
  from_user_id :: int
  chat_id :: int
  message_text :: str

text \<open>
  The answers of \<open>handle_recharge_command\<close> to the administrator, one constructor for
  each \<open>bot.send_message\<close> that ends a branch; the wording belongs to the transport.
  \<^item> \<open>No_permission\<close>: "Non hai i permessi per usare questo comando."
  \<^item> \<open>Wrong_usage\<close>: "Uso corretto: /ricarica <quantita> <codice_univoco>"
  \<^item> \<open>Invalid_amount\<close>: "La quantita deve essere un numero valido."
  \<^item> \<open>Negative_amount\<close>: "La quantita non puo essere negativa."
  \<^item> \<open>User_not_found code\<close>: "Utente con codice ... non trovato."
  \<^item> \<open>Credits_set code new previous\<close>: "Crediti dell'utente ... impostati a ...
    Crediti precedenti: ..."
\<close>

datatype recharge_reply =
    No_permission
  | Wrong_usage
  | Invalid_amount
  | Negative_amount
  | User_not_found str
  | Credits_set str int int

text \<open>
  \<open>handle_recharge_command\<close> (lines 947 to 1011). Every message that the handler sends
  before \<open>save_user_to_database\<close> ends its branch, and the notification of the user
  comes after the save, so a failure of the transport does not change what is stored.
\<close>

definition handle_recharge_command ::
  "message \<Rightarrow> users \<Rightarrow> rng \<Rightarrow> (recharge_reply \<times> users \<times> rng) option" where
  "handle_recharge_command message users r =
     (if \<not> is_admin (from_user_id message) then Some (No_permission, users, r)
      else
        (let command_parts = py_split (message_text message) in
         if length command_parts \<noteq> 3 then Some (Wrong_usage, users, r)
         else
           (case py_int (command_parts ! 1) of
              None \<Rightarrow> Some (Invalid_amount, users, r)
            | Some amount \<Rightarrow>
                (let uid = py_upper (command_parts ! 2) in
                 if amount < 0 then Some (Negative_amount, users, r)
                 else
                   (case find_user_by_unique_id uid users of
                      None \<Rightarrow> Some (User_not_found uid, users, r)
                    | Some (target_telegram_id, current_credits, current_city) \<Rightarrow>
                        (case get_or_create_user target_telegram_id users r of
                           None \<Rightarrow> None
                         | Some ((uid', creds, cty, fmu), users', r') \<Rightarrow>
                             Some (Credits_set uid amount current_credits,
                                   save_user_to_database target_telegram_id uid amount
                                     current_city fmu users', r')))))))"


datatype operation = Consume int | Recharge message

fun apply_operation :: "operation \<Rightarrow> users \<Rightarrow> rng \<Rightarrow> (users \<times> rng) option" where
  "apply_operation (Consume user_id) users r =
     map_option snd (consume_user_message user_id users r)"
| "apply_operation (Recharge m) users r =
     map_option snd (handle_recharge_command m users r)"

fun apply_operations :: "operation list \<Rightarrow> users \<Rightarrow> rng \<Rightarrow> (users \<times> rng) option" where
  "apply_operations [] users r = Some (users, r)"
| "apply_operations (x # xs) users r =
     (case apply_operation x users r of
        None \<Rightarrow> None
      | Some (users', r') \<Rightarrow> apply_operations xs users' r')"


section \<open>Replies\<close>

text \<open>
  The tables of \<open>get_contextual_response\<close> (lines 479 to 575, 591 to 597 and 600 to
  609). A code point outside printable ASCII is written as its number: 128520, 128293,
  128139 and 128527 are the four emoji of the replies. \<open>response_patterns\<close> is a
  dictionary literal; the list keeps its order, and its keys are distinct.
\<close>

definition response_patterns :: "str \<Rightarrow> (str \<times> str list) list" where
  "response_patterns profile_name =
     [(py_str ''ciao'',
        [py_str ''Ciao bello! '' @ [128520] @ py_str '' Hai voglia di giocare con me?'',
         py_str ''Ehi tesoro! '' @ [128293] @ py_str '' Mi hai fatto venire voglia di te...'',
         py_str ''Ciao amore! '' @ [128139] @ py_str '' Spero tu sia pronto per me!'']),
      (py_str ''grazie'',
        [py_str ''Prego baby! '' @ [128527] @ py_str '' Ora tocca a te farmi felice...'',
         py_str ''Figurati! '' @ [128293] @ py_str '' Dimmi cosa vorresti fare con me...'',
         py_str ''Di niente sexy! '' @ [128139] @ py_str '' Raccontami le tue fantasie!'']),
      (py_str ''bene'',
        [py_str ''Perfetto! '' @ [128520] @ py_str '' Anch'' @ [39] @ py_str ''io sto bene... anzi bollente!'',
         py_str ''Fantastico! '' @ [128293] @ py_str '' Io sono tutta eccitata oggi!'',
         py_str ''Che bello! '' @ [128139] @ py_str '' Dimmi, hai voglia di divertirti?'']),
      (py_str ''come va'',
        [py_str ''Benissimo! '' @ [128520] @ py_str '' Sto pensando a te nudo... e tu?'',
         py_str ''Alla grande! '' @ [128293] @ py_str '' Ho una voglia matta di te!'',
         py_str ''Perfetto! '' @ [128139] @ py_str '' Sono tutta calda oggi! Raccontami di te!'',
         py_str ''Benissimo grazie! '' @ [128527] @ py_str '' Stavo fantasticando su di te...'',
         py_str ''Molto bene! '' @ [128293] @ py_str '' Ho fatto sogni piccanti stanotte!'']),
      (py_str ''come stai'',
        [py_str ''Benissimo! '' @ [128520] @ py_str '' Ma sarei meglio se fossi qui con me...'',
         py_str ''Alla grande! '' @ [128293] @ py_str '' Tu invece... hai voglia di me?'',
         py_str ''Perfetta! '' @ [128139] @ py_str '' Soprattutto ora che ci sei tu!'',
         py_str ''Molto bene! '' @ [128527] @ py_str '' Sono sempre eccitata quando parlo con te!'']),
      (py_str ''cosa fai'',
        [py_str ''Sto pensando a te! '' @ [128520] @ py_str '' E a quello che vorrei farti...'',
         py_str ''Niente di speciale... '' @ [128293] @ py_str '' Ma ho certe fantasie...'',
         py_str ''Stavo toccandomi pensando a te! '' @ [128139] @ py_str '' Tu cosa fai?'',
         py_str ''Sto qui tutta nuda ad aspettarti! '' @ [128527] @ py_str '' E tu?'']),
      (py_str ''bello'',
        [py_str ''Grazie tesoro! '' @ [128293] @ py_str '' Tu invece mi fai venire voglia...'',
         py_str ''Sei dolce! '' @ [128520] @ py_str '' Ma io sono anche molto cattiva...'',
         py_str ''Aww! '' @ [128139] @ py_str '' Tu mi fai sentire cos'' @ [236] @ py_str '' sexy!'']),
      (py_str ''casino'',
        [py_str ''Il casino? '' @ [128527] @ py_str '' Preferisco giocare con te... se capisci cosa intendo!'',
         py_str ''Anche tu giochi? '' @ [128293] @ py_str '' Io preferisco altri tipi di giochi... pi'' @ [249] @ py_str '' intimi!'',
         py_str ''Al casino? '' @ [128520] @ py_str '' Io scommetterei tutto su di noi due insieme!'']),
      (py_str ''scopo'',
        [py_str ''Oh mio dio! '' @ [128520] @ py_str '' Sei proprio diretto! Mi piacciono gli uomini cos'' @ [236] @ py_str ''...'',
         py_str ''Che cattivo che sei! '' @ [128293] @ py_str '' Ma ammetto che mi ecciti...'',
         py_str ''Mmm... '' @ [128139] @ py_str '' Parli come uno che sa quello che vuole!'']),
      (py_str ''madre'',
        [py_str ''Che maleducato! '' @ [128527] @ py_str '' Ma devo ammettere che mi piace quando sei cos'' @ [236] @ py_str ''...'',
         py_str ''Ooh! '' @ [128520] @ py_str '' Hai un caratterino! Mi eccita quando ti arrabbi...'',
         py_str ''Che linguaggio! '' @ [128293] @ py_str '' Ma sai cosa? Mi stai facendo venire voglia...'']),
      (py_str ''come ti chiami'',
        [py_str ''Mi chiamo '' @ profile_name @ py_str ''! '' @ [128520] @ py_str '' E tu come ti chiami, bello?'',
         py_str ''Sono '' @ profile_name @ py_str ''! '' @ [128293] @ py_str '' Ma puoi chiamarmi come vuoi... anche '' @ [39] @ py_str ''mia'' @ [39] @ py_str ''!'',
         profile_name @ py_str '', piacere! '' @ [128139] @ py_str '' Spero di piacere anche a te!'']),
      (py_str ''nome'',
        [py_str ''Il mio nome '' @ [232] @ py_str '' '' @ profile_name @ py_str ''! '' @ [128520] @ py_str '' Ma tu urlalo quando...'',
         py_str ''Sono '' @ profile_name @ py_str ''! '' @ [128293] @ py_str '' Dimmi il tuo, cos'' @ [236] @ py_str '' so come chiamarti!'',
         py_str ''Mi chiamo '' @ profile_name @ py_str ''! '' @ [128139] @ py_str '' Ma preferisco quando mi chiami '' @ [39] @ py_str ''baby'' @ [39] @ py_str ''!'']),
      (py_str ''cosa mi faresti'',
        [py_str ''Ti farei impazzire! '' @ [128520] @ py_str '' Ti toccherei ovunque finch'' @ [233] @ py_str '' non implori...'',
         py_str ''Mmm... tante cose cattive! '' @ [128293] @ py_str '' Ti farei venire voglia come non mai!'',
         py_str ''Inizierei baciandoti il collo... '' @ [128139] @ py_str '' poi scendiamo sempre pi'' @ [249] @ py_str '' gi'' @ [249] @ py_str ''!'',
         py_str ''Ti farei sentire come un re! '' @ [128527] @ py_str '' E tu cosa faresti a me?'',
         py_str ''Oh tesoro... '' @ [128293] @ py_str '' ti farei cose che non hai mai provato!'']),
      (py_str ''faresti'',
        [py_str ''Ti farei impazzire di piacere! '' @ [128520] @ py_str '' Dimmi dove vorresti essere toccato...'',
         py_str ''Tante cose piccanti! '' @ [128293] @ py_str '' Vuoi che te le racconti tutte?'',
         py_str ''Ti farei sentire in paradiso! '' @ [128139] @ py_str '' E tu a me cosa faresti?'',
         py_str ''Cose molto cattive! '' @ [128527] @ py_str '' Sei pronto per me?'']),
      (py_str ''voglia'',
        [py_str ''Anch'' @ [39] @ py_str ''io ho tanta voglia di te! '' @ [128520] @ py_str '' Vieni qui da me...'',
         py_str ''La voglia che ho '' @ [232] @ py_str '' incredibile! '' @ [128293] @ py_str '' Non riesco a smettere di pensarti!'',
         py_str ''Ho una voglia matta! '' @ [128139] @ py_str '' Dimmi cosa vuoi fare insieme...'',
         py_str ''Sono tutta bagnata dalla voglia! '' @ [128527] @ py_str '' Tu invece?'']),
      (py_str ''nudo'',
        [py_str ''Mmm... mi piace come pensi! '' @ [128520] @ py_str '' Anch'' @ [39] @ py_str ''io sono senza niente addosso!'',
         py_str ''Perfetto! '' @ [128293] @ py_str '' Cos'' @ [236] @ py_str '' posso toccarti meglio ovunque!'',
         py_str ''Che bello! '' @ [128139] @ py_str '' Dimmi cosa vedi quando mi guardi nuda...'',
         py_str ''Sono gi'' @ [224] @ py_str '' pronta per te! '' @ [128527] @ py_str '' Vieni a prendermi!'']),
      (py_str ''sesso'',
        [py_str ''Oh s'' @ [236] @ py_str '' baby! '' @ [128520] @ py_str '' Sono sempre pronta per te!'',
         py_str ''Mi piace quando parli cos'' @ [236] @ py_str ''! '' @ [128293] @ py_str '' Raccontami le tue fantasie...'',
         py_str ''Dimmi come lo vuoi! '' @ [128139] @ py_str '' Sono tutta per te!'',
         py_str ''Sono gi'' @ [224] @ py_str '' eccitata solo a sentirti! '' @ [128527] @ py_str '' Quando ci vediamo?''])]"

definition short_responses :: "str list" where
  "short_responses =
     [py_str ''Dimmi di pi'' @ [249] @ py_str '', baby! '' @ [128520],
      py_str ''Ah s'' @ [236] @ py_str ''? '' @ [128293] @ py_str '' Continua a eccitarmi!'',
      py_str ''Interessante! '' @ [128139] @ py_str '' Vai avanti!'',
      py_str ''E poi? '' @ [128527] @ py_str '' Non fermarti!'',
      py_str ''Mmm... '' @ [128293] @ py_str '' Mi stai piacendo!'']"

definition long_responses :: "str list" where
  "long_responses =
     [py_str ''Mi piace come parli! '' @ [128520] @ py_str '' Continua cos'' @ [236] @ py_str '' che mi ecciti!'',
      py_str ''Interessante! '' @ [128293] @ py_str '' Dimmi di pi'' @ [249] @ py_str '', mi stai facendo venire voglia!'',
      py_str ''Ah s'' @ [236] @ py_str ''? '' @ [128139] @ py_str '' Raccontami tutto, sono tutta per te!'',
      py_str ''Mi piaci quando parli cos'' @ [236] @ py_str ''! '' @ [128527] @ py_str '' Vai avanti!'',
      py_str ''Sono curiosa! '' @ [128293] @ py_str '' Dimmi tutti i tuoi segreti!'',
      py_str ''Hai catturato la mia attenzione! '' @ [128520] @ py_str '' E non solo quella...'',
      py_str ''Che sexy! '' @ [128139] @ py_str '' Continua a parlarmi cos'' @ [236] @ py_str ''!'',
      py_str ''Mi stai facendo impazzire! '' @ [128293] @ py_str '' Non fermarti!'']"

text \<open>
  \<open>get_contextual_response\<close> (lines 472 to 610). The parameter
  \<open>conversation_history\<close> is never passed and never read. \<open>list.sort\<close> is stable, also
  with \<open>reverse=True\<close>, which is \<open>sort_key\<close> on the negated length.
\<close>

definition get_contextual_response :: "str \<Rightarrow> str \<Rightarrow> rng \<Rightarrow> (str \<times> rng) option" where
  "get_contextual_response prompt profile_name r =
     (let prompt_lower = py_strip (py_lower prompt);
          matched_responses =
            map (\<lambda>(keyword, responses). (length keyword, responses))
              (filter (\<lambda>(keyword, responses). py_in keyword prompt_lower)
                 (response_patterns profile_name))
      in if matched_responses \<noteq> []
         then random_choice (snd (hd (sort_key (\<lambda>x. - int (fst x)) matched_responses))) r
         else if length prompt_lower < 10 then random_choice short_responses r
         else random_choice long_responses r)"

text \<open>
  What the call \<open>requests.post\<close> of \<open>query_huggingface_ai\<close> can bring: an exception
  (timeout, no connection), or a response with a status code and a body, where the body
  \<open>None\<close> is one that \<open>response.json()\<close> cannot parse. A JSON object is the list of its
  members; \<open>json.loads\<close> keeps the last value of a repeated key. The code never looks
  into a number.
\<close>

datatype json =
    JNull
  | JBool bool
  | JNumber int
  | JString str
  | JArray "json list"
  | JObject "(str \<times> json) list"

datatype http_outcome = Request_error | Response int "json option"

text \<open>
  Lines 639 to 642: the stripped \<open>generated_text\<close> of the first element of the result.
  \<open>None\<close> collects the ways to the fallback: a status other than 200, a body that is
  not JSON, a result that is not a list with an element, an element that is not an object
  (\<open>.get\<close> raises \<open>AttributeError\<close>) and a \<open>generated_text\<close> that is not a string
  (\<open>.strip\<close> raises \<open>AttributeError\<close>). The default of \<open>.get\<close> is the empty string.
\<close>

definition generated_text :: "http_outcome \<Rightarrow> str option" where
  "generated_text outcome =
     (case outcome of
        Response status (Some (JArray (JObject members # rest))) \<Rightarrow>
          if status = 200 then
            (case map_of (rev members) (py_str ''generated_text'') of
               None \<Rightarrow> Some (py_strip [])
             | Some (JString s) \<Rightarrow> Some (py_strip s)
             | Some other \<Rightarrow> None)
          else None
      | _ \<Rightarrow> None)"

text \<open>Lines 645 to 650: the part of the text after the label of the persona.\<close>

definition extract_ai_response :: "str \<Rightarrow> str \<Rightarrow> str" where
  "extract_ai_response profile_name ai_response =
     (let label = profile_name @ py_str '':'' in
      if py_in label ai_response then py_strip (last (py_split_sep label ai_response))
      else if py_in (py_str ''User:'') ai_response then
        (let parts = py_split_sep (py_str ''User:'') ai_response in
         if length parts > 1 then py_strip (last (py_split_sep label (last parts)))
         else ai_response)
      else ai_response)"

text \<open>The emoji of line 655.\<close>

definition reply_emoji :: "str list" where
  "reply_emoji = [[128520], [128293], [128139], [128527], [128522], [128149], [128536]]"

text \<open>
  \<open>query_huggingface_ai\<close> (lines 612 to 664). Both the end of the \<open>try\<close> block and the
  handler \<open>except Exception\<close> return \<open>get_contextual_response(prompt, profile_name)\<close>;
  an exception of that call would leave the function, which is the value \<open>None\<close>.
\<close>

definition query_huggingface_ai ::
  "str \<Rightarrow> str \<Rightarrow> http_outcome \<Rightarrow> rng \<Rightarrow> (str \<times> rng) option" where
  "query_huggingface_ai prompt profile_name outcome r =
     (case generated_text outcome of
        None \<Rightarrow> get_contextual_response prompt profile_name r
      | Some generated \<Rightarrow>
          let ai_response = extract_ai_response profile_name generated in
          if ai_response \<noteq> [] \<and> length ai_response > 3 \<and> length ai_response < 200
          then
            if \<not> list_ex (\<lambda>emoji. py_in emoji ai_response) reply_emoji
            then Some (ai_response @ [32, 128520], r)
            else Some (ai_response, r)
          else get_contextual_response prompt profile_name r)"


section \<open>Invariants and sample data\<close>

text \<open>The invariants of the stored records: no negative balance, and no code twice.\<close>

definition credits_nonneg :: "users \<Rightarrow> bool" where
  "credits_nonneg users = list_all (\<lambda>(t, data). 0 \<le> credits data) (DAList.impl_of users)"


text \<open>
  Concrete inputs for the instances below: a stored user, a random supply that always
  draws 0, one that draws 0 ten times and 1 from then on, the record of a new user, and a
  message of the first administrator.
\<close>

definition user1 :: user_data where
  "user1 = \<lparr>unique_id = py_str ''AB12C'', credits = 7, city = py_str ''Roma'',
             free_messages_used = 2\<rparr>"

definition rng0 :: rng where
  "rng0 = (\<lambda>i. 0)"



definition admin_message :: "str \<Rightarrow> message" where
  "admin_message txt =
     \<lparr>from_user_id = 7517832119, chat_id = 7517832119, message_text = txt\<rparr>"


section \<open>Basic facts\<close>

lemma py_str_inject [simp]: "py_str a = py_str b \<longleftrightarrow> a = b"
proof -
  have "inj (of_char :: char \<Rightarrow> nat)"
    by (rule injI) simp
  then show ?thesis
    unfolding py_str_def by (rule inj_map_eq_map)
qed

lemma py_str_Nil [simp]: "py_str s = [] \<longleftrightarrow> s = []"
  by (simp add: py_str_def)

lemma rng_skip_rng0 [simp]: "rng_skip k rng0 = rng0"
  by (simp add: rng_skip_def rng0_def)

lemma generate_user_id_rng0: "generate_user_id rng0 = (py_str ''AAAAA'', rng0)"
  by (simp add: generate_user_id_def code_alphabet_def py_str_def upt_rec rng0_def rng_skip_def)

lemma lookup_save_same:
  "DAList.lookup (save_user_to_database t uid creds cty fmu users) t =
     Some \<lparr>unique_id = uid, credits = creds,
           city = (case DAList.lookup users t of
                     Some old \<Rightarrow> if cty = non_selezionata then city old else cty
                   | None \<Rightarrow> cty),
           free_messages_used = (case DAList.lookup users t of
                     Some old \<Rightarrow> if fmu = 0 then free_messages_used old else fmu
                   | None \<Rightarrow> fmu)\<rparr>"
  by (simp add: save_user_to_database_def Let_def)

lemma lookup_save_other:
  "t' \<noteq> t \<Longrightarrow> DAList.lookup (save_user_to_database t uid creds cty fmu users) t' =
     DAList.lookup users t'"
  by (simp add: save_user_to_database_def Let_def)

lemma get_or_create_user_existing:
  "DAList.lookup users t = Some data \<Longrightarrow>
   get_or_create_user t users r =
     Some ((unique_id data, credits data, city data, free_messages_used data), users, r)"
  by (simp add: get_or_create_user_def)

lemma unique_id_loop_stop:
  "\<not> list_ex (\<lambda>data. unique_id data = uid) vals \<Longrightarrow>
   unique_id_loop vals uid r = Some (uid, r)"
  by (subst unique_id_loop.simps) simp

lemma unique_id_loop_retry:
  "list_ex (\<lambda>data. unique_id data = uid) vals \<Longrightarrow>
   unique_id_loop vals uid r =
     unique_id_loop vals (fst (generate_user_id r)) (snd (generate_user_id r))"
  by (subst unique_id_loop.simps) simp

lemma get_or_create_user_empty:
  "get_or_create_user t DAList.empty rng0 =
     Some ((py_str ''AAAAA'', 0, non_selezionata, 0),
           DAList.update t \<lparr>unique_id = py_str ''AAAAA'', credits = 0, city = non_selezionata,
              free_messages_used = 0\<rparr> DAList.empty, rng0)"
  by (simp add: get_or_create_user_def generate_user_id_rng0 empty.rep_eq unique_id_loop_stop
        save_user_to_database_def)

lemma lookup_user1 [simp]: "DAList.lookup (DAList.update t user1 DAList.empty) t = Some user1"
  by simp


section \<open>The store: \<open>save_user_to_database\<close> and \<open>get_or_create_user\<close>\<close>









section \<open>The quota\<close>

text \<open>
  C7, as the code has it. For an identity that has a record, \<open>can_user_send_message\<close>
  leaves the store (and the random supply) exactly as it was.
\<close>

theorem check_existing_is_pure:
  assumes "DAList.lookup users t = Some data"
  shows "map_option snd (can_user_send_message t users r) = Some (users, r)"
  using assms
  by (auto simp add: can_user_send_message_def get_or_create_user_existing)

theorem check_existing_is_pure_witness:
  "DAList.lookup (DAList.update 2 user1 DAList.empty) 2 = Some user1 \<and>
   map_option snd (can_user_send_message 2 (DAList.update 2 user1 DAList.empty) rng0) =
     Some (DAList.update 2 user1 DAList.empty, rng0)"
  using check_existing_is_pure [of "DAList.update 2 user1 DAList.empty" 2 user1 rng0]
  by simp

text \<open>
  C7 as stated fails for an identity without a record: on the empty store the check for
  identity 1 goes through \<open>get_or_create_user\<close>, which creates and saves the record, so
  the store after the check holds one record and the store before it none.
\<close>

theorem check_counterexample:
  "map_option (\<lambda>(res, users, r). DAList.impl_of users)
      (can_user_send_message 1 DAList.empty rng0) =
     Some [(1, \<lparr>unique_id = py_str ''AAAAA'', credits = 0, city = non_selezionata,
                 free_messages_used = 0\<rparr>)]
   \<and> DAList.impl_of (DAList.empty :: users) = []"
  by (simp add: can_user_send_message_def get_or_create_user_empty FREE_MESSAGES_LIMIT_def
        update.rep_eq empty.rep_eq)

text \<open>
  C3. A record with credits \<open>c\<close> and no free message used: the first and the second
  \<open>consume_user_message\<close> succeed as free messages and each adds 1 to
  \<open>free_messages_used\<close>, the credits staying \<open>c\<close>; the third succeeds by credits and
  takes \<open>CREDITS_PER_MESSAGE\<close> from the credits, the count staying 2, when
  \<open>c \<ge> CREDITS_PER_MESSAGE\<close>, and otherwise is refused and changes nothing.
\<close>

theorem consume_three_times:
  assumes "DAList.lookup users t =
             Some \<lparr>unique_id = u, credits = c, city = ct, free_messages_used = 0\<rparr>"
  shows "consume_user_message t users r =
           Some ((True, py_str ''free_message_used''),
                 DAList.update t
                   \<lparr>unique_id = u, credits = c, city = ct, free_messages_used = 1\<rparr> users, r)
       \<and> consume_user_message t
           (DAList.update t
              \<lparr>unique_id = u, credits = c, city = ct, free_messages_used = 1\<rparr> users) r =
           Some ((True, py_str ''free_message_used''),
                 DAList.update t
                   \<lparr>unique_id = u, credits = c, city = ct, free_messages_used = 2\<rparr> users, r)
       \<and> consume_user_message t
           (DAList.update t
              \<lparr>unique_id = u, credits = c, city = ct, free_messages_used = 2\<rparr> users) r =
           (if c \<ge> CREDITS_PER_MESSAGE
            then Some ((True, py_str ''credits_used''),
                   DAList.update t
                     \<lparr>unique_id = u, credits = c - CREDITS_PER_MESSAGE, city = ct,
                        free_messages_used = 2\<rparr> users, r)
            else Some ((False, py_str ''insufficient_credits''),
                   DAList.update t
                     \<lparr>unique_id = u, credits = c, city = ct, free_messages_used = 2\<rparr> users, r))"
  using assms
  by (simp add: consume_user_message_def get_or_create_user_existing FREE_MESSAGES_LIMIT_def
        save_user_to_database_def)

theorem consume_three_times_witness:
  "DAList.lookup (DAList.update 2 (user1\<lparr>free_messages_used := 0\<rparr>) DAList.empty) 2 =
     Some \<lparr>unique_id = py_str ''AB12C'', credits = 7, city = py_str ''Roma'',
            free_messages_used = 0\<rparr> \<and>
   consume_user_message 2 (DAList.update 2 (user1\<lparr>free_messages_used := 0\<rparr>) DAList.empty) rng0 =
     Some ((True, py_str ''free_message_used''),
           DAList.update 2 (user1\<lparr>free_messages_used := 1\<rparr>) DAList.empty, rng0) \<and>
   consume_user_message 2 (DAList.update 2 (user1\<lparr>free_messages_used := 1\<rparr>) DAList.empty) rng0 =
     Some ((True, py_str ''free_message_used''),
           DAList.update 2 (user1\<lparr>free_messages_used := 2\<rparr>) DAList.empty, rng0) \<and>
   consume_user_message 2 (DAList.update 2 (user1\<lparr>free_messages_used := 2\<rparr>) DAList.empty) rng0 =
     Some ((True, py_str ''credits_used''),
           DAList.update 2 (user1\<lparr>credits := 5\<rparr>) DAList.empty, rng0)"
  using consume_three_times [of "DAList.update 2 (user1\<lparr>free_messages_used := 0\<rparr>) DAList.empty"
      2 "py_str ''AB12C''" 7 "py_str ''Roma''" rng0]
  by (simp add: user1_def CREDITS_PER_MESSAGE_def)


section \<open>Public codes\<close>


lemma rng_skip_add: "rng_skip a (rng_skip b r) = rng_skip (a + b) r"
  by (simp add: rng_skip_def add.assoc)

lemma snd_generate_user_id: "snd (generate_user_id r) = rng_skip 5 r"
  by (simp add: generate_user_id_def)

lemma unique_id_loop_returns:
  assumes "\<not> list_ex (\<lambda>data. unique_id data = fst (generate_user_id (rng_skip (5 * n) r))) vals"
  shows "unique_id_loop vals (fst (generate_user_id r)) (snd (generate_user_id r)) \<noteq> None"
  using assms
proof (induction n arbitrary: r)
  case 0
  then have "\<not> list_ex (\<lambda>data. unique_id data = fst (generate_user_id r)) vals"
    by (simp add: rng_skip_def)
  then show ?case
    by (simp add: unique_id_loop_stop)
next
  case (Suc n)
  have "rng_skip (5 * n) (rng_skip 5 r) = rng_skip (5 * Suc n) r"
    by (simp add: rng_skip_add add.commute)
  with Suc.prems have
    "\<not> list_ex (\<lambda>data. unique_id data = fst (generate_user_id (rng_skip (5 * n) (rng_skip 5 r)))) vals"
    by simp
  from Suc.IH [OF this] show ?case
    by (cases "list_ex (\<lambda>data. unique_id data = fst (generate_user_id r)) vals")
       (simp_all add: unique_id_loop_stop unique_id_loop_retry snd_generate_user_id)
qed















section \<open>Credits\<close>

lemma credits_nonneg_lookup:
  "credits_nonneg users \<longleftrightarrow>
     (\<forall>t data. DAList.lookup users t = Some data \<longrightarrow> 0 \<le> credits data)"
  by (auto simp: credits_nonneg_def list_all_iff lookup.rep_eq)

lemma credits_nonneg_save:
  assumes "credits_nonneg users" and "0 \<le> creds"
  shows "credits_nonneg (save_user_to_database t uid creds cty fmu users)"
  unfolding credits_nonneg_lookup
proof (intro allI impI)
  fix t' data
  assume l: "DAList.lookup (save_user_to_database t uid creds cty fmu users) t' = Some data"
  show "0 \<le> credits data"
  proof (cases "t' = t")
    case True
    with l assms(2) show ?thesis
      by (auto simp: lookup_save_same)
  next
    case False
    with l have "DAList.lookup users t' = Some data"
      by (simp add: lookup_save_other)
    with assms(1) show ?thesis
      by (simp add: credits_nonneg_lookup)
  qed
qed

lemma credits_nonneg_get_or_create:
  assumes "credits_nonneg users"
    and "get_or_create_user t users r = Some ((uid, creds, cty, fmu), users', r')"
  shows "credits_nonneg users' \<and> 0 \<le> creds"
proof (cases "DAList.lookup users t")
  case None
  with assms(2) obtain u where "users' = save_user_to_database t u 0 non_selezionata 0 users"
    and "creds = 0"
    by (auto simp: get_or_create_user_def split: option.splits)
  with assms(1) show ?thesis
    by (simp add: credits_nonneg_save)
next
  case (Some data)
  with assms(2) have "users' = users" and "creds = credits data"
    by (simp_all add: get_or_create_user_existing)
  with assms(1) Some show ?thesis
    by (simp add: credits_nonneg_lookup)
qed

lemma credits_nonneg_consume:
  assumes "credits_nonneg users"
    and "consume_user_message t users r = Some (res, users', r')"
  shows "credits_nonneg users'"
proof -
  from assms(2) obtain uid creds cty fmu users1 r1 where
    g: "get_or_create_user t users r = Some ((uid, creds, cty, fmu), users1, r1)"
    by (auto simp: consume_user_message_def split: option.splits)
  from credits_nonneg_get_or_create [OF assms(1) g]
  have n1: "credits_nonneg users1" and c: "0 \<le> creds" by simp_all
  from assms(2) g consider
      "users' = save_user_to_database t uid creds cty (fmu + 1) users1"
    | "CREDITS_PER_MESSAGE \<le> creds"
      "users' = save_user_to_database t uid (creds - CREDITS_PER_MESSAGE) cty fmu users1"
    | "users' = users1"
    by (auto simp: consume_user_message_def split: if_splits)
  then show ?thesis
  proof cases
    case 1
    with n1 c show ?thesis by (simp add: credits_nonneg_save)
  next
    case 2
    with n1 show ?thesis by (simp add: credits_nonneg_save)
  next
    case 3
    with n1 show ?thesis by simp
  qed
qed

lemma credits_nonneg_recharge:
  assumes "credits_nonneg users"
    and "handle_recharge_command m users r = Some (res, users', r')"
  shows "credits_nonneg users'"
proof (cases "users' = users")
  case True
  with assms(1) show ?thesis by simp
next
  case False
  with assms(2) have "\<exists>amount uid t cty fmu users1 uid' creds cty'. 0 \<le> amount \<and>
      get_or_create_user t users r = Some ((uid', creds, cty', fmu), users1, r') \<and>
      users' = save_user_to_database t uid amount cty fmu users1"
    by (auto simp: handle_recharge_command_def Let_def not_less split: if_splits option.splits)
       blast
  then obtain amount uid t cty fmu users1 uid' creds cty' where
    "0 \<le> amount"
    and g: "get_or_create_user t users r = Some ((uid', creds, cty', fmu), users1, r')"
    and u: "users' = save_user_to_database t uid amount cty fmu users1"
    by blast
  with credits_nonneg_get_or_create [OF assms(1) g] show ?thesis
    by (simp add: credits_nonneg_save)
qed

lemma find_code_lookup:
  assumes "find (\<lambda>(t, d). unique_id d = code) (DAList.impl_of users) = Some (t, data)"
  shows "DAList.lookup users t = Some data \<and> unique_id data = code"
proof -
  from assms have "(t, data) \<in> set (DAList.impl_of users)" and "unique_id data = code"
    by (auto simp: find_Some_iff in_set_conv_nth)
  then show ?thesis
    by (simp add: lookup.rep_eq)
qed

lemma find_update_same_code:
  assumes "distinct (map fst xs)"
    and "find (\<lambda>(t, d). unique_id d = code) xs = Some (t, data)"
    and "unique_id v = code"
  shows "find (\<lambda>(t, d). unique_id d = code) (AList.update t v xs) = Some (t, v)"
  using assms
proof (induction xs)
  case Nil
  then show ?case by simp
next
  case (Cons x xs)
  obtain k d where x: "x = (k, d)" by (cases x)
  show ?case
  proof (cases "unique_id d = code")
    case True
    with Cons.prems x show ?thesis by simp
  next
    case False
    with Cons.prems x have f: "find (\<lambda>(t, d). unique_id d = code) xs = Some (t, data)"
      by simp
    then have "(t, data) \<in> set xs"
      by (auto simp: find_Some_iff in_set_conv_nth)
    with Cons.prems(1) x have "k \<noteq> t"
      by force
    with Cons.IH Cons.prems x f False show ?thesis
      by simp
  qed
qed

lemma find_user_update_same_code:
  assumes "find_user_by_unique_id code users = Some (t, cr, ct)"
    and "DAList.lookup users t = Some data"
  shows "find_user_by_unique_id code (DAList.update t (data\<lparr>credits := x\<rparr>) users) =
           Some (t, x, city data)"
proof -
  from assms(1) obtain d where
    f: "find (\<lambda>(t, d). unique_id d = code) (DAList.impl_of users) = Some (t, d)"
    by (auto simp: find_user_by_unique_id_def split: option.splits)
  from find_code_lookup [OF f] assms(2) have "d = data" and "unique_id data = code"
    by simp_all
  with find_update_same_code [OF impl_of_distinct f, of "data\<lparr>credits := x\<rparr>"]
  show ?thesis
    by (simp add: find_user_by_unique_id_def update.rep_eq)
qed

lemma recharge_effect:
  assumes "is_admin (from_user_id m)"
    and "py_split (message_text m) = [cmd, a, k]"
    and "py_int a = Some x" and "0 \<le> x"
    and "find_user_by_unique_id (py_upper k) users = Some (t, cr, ct)"
  shows "\<exists>data. DAList.lookup users t = Some data \<and> unique_id data = py_upper k \<and>
           credits data = cr \<and> city data = ct \<and>
           handle_recharge_command m users r =
             Some (Credits_set (py_upper k) x cr, DAList.update t (data\<lparr>credits := x\<rparr>) users, r)"
proof -
  from assms(5) obtain data where
    f: "find (\<lambda>(t, d). unique_id d = py_upper k) (DAList.impl_of users) = Some (t, data)"
    and cr: "cr = credits data" and ct: "ct = city data"
    by (auto simp: find_user_by_unique_id_def split: option.splits)
  from find_code_lookup [OF f] have l: "DAList.lookup users t = Some data"
    and u: "unique_id data = py_upper k" by simp_all
  have "save_user_to_database t (py_upper k) x ct (free_messages_used data) users =
          DAList.update t (data\<lparr>credits := x\<rparr>) users"
    using l u ct by (cases data) (simp add: save_user_to_database_def)
  with assms l u cr ct show ?thesis
    by (simp add: handle_recharge_command_def get_or_create_user_existing)
qed

lemma recharge_negative_rejected:
  assumes "py_split (message_text m) = [cmd, a, k]" and "py_int a = Some x" and "x < 0"
  shows "map_option snd (handle_recharge_command m users r) = Some (users, r)"
  using assms by (simp add: handle_recharge_command_def)

lemma split_ricarica_50:
  "py_split (py_str ''/ricarica 50 ab12c'') = [py_str ''/ricarica'', py_str ''50'', py_str ''ab12c'']"
  by (simp add: py_split_def py_str_def is_space_def)

lemma split_ricarica_10:
  "py_split (py_str ''/ricarica 10 AB12C'') = [py_str ''/ricarica'', py_str ''10'', py_str ''AB12C'']"
  by (simp add: py_split_def py_str_def is_space_def)

lemma py_int_50: "py_int (py_str ''50'') = Some 50"
  by (simp add: py_int_def py_strip_def py_str_def is_space_def)

lemma py_int_10: "py_int (py_str ''10'') = Some 10"
  by (simp add: py_int_def py_strip_def py_str_def is_space_def)

lemma py_upper_ab12c: "py_upper (py_str ''ab12c'') = py_str ''AB12C''"
  by (simp add: py_upper_def py_str_def)

lemma py_upper_AB12C: "py_upper (py_str ''AB12C'') = py_str ''AB12C''"
  by (simp add: py_upper_def py_str_def)

lemma is_admin_admin_message: "is_admin (from_user_id (admin_message txt))"
  by (simp add: is_admin_def ADMIN_IDS_def admin_message_def)

lemma find_user1:
  "find_user_by_unique_id (py_str ''AB12C'') (DAList.update 2 (user1\<lparr>credits := c\<rparr>) DAList.empty) =
     Some (2, c, py_str ''Roma'')"
  by (simp add: find_user_by_unique_id_def update.rep_eq empty.rep_eq user1_def)

lemma recharge_user1:
  "handle_recharge_command (admin_message (py_str ''/ricarica 50 ab12c''))
     (DAList.update 2 (user1\<lparr>credits := c\<rparr>) DAList.empty) r =
   Some (Credits_set (py_str ''AB12C'') 50 c,
         DAList.update 2 (user1\<lparr>credits := 50\<rparr>) DAList.empty, r)"
  using recharge_effect [of "admin_message (py_str ''/ricarica 50 ab12c'')" "py_str ''/ricarica''"
      "py_str ''50''" "py_str ''ab12c''" 50 "DAList.update 2 (user1\<lparr>credits := c\<rparr>) DAList.empty"
      2 c "py_str ''Roma''" r]
  by (simp add: is_admin_admin_message py_int_50 py_upper_ab12c find_user1)
     (simp add: admin_message_def split_ricarica_50)

lemma consume_user1:
  "2 \<le> c \<Longrightarrow> consume_user_message 2 (DAList.update 2 (user1\<lparr>credits := c\<rparr>) DAList.empty) r =
   Some ((True, py_str ''credits_used''), DAList.update 2 (user1\<lparr>credits := c - 2\<rparr>) DAList.empty, r)"
  by (simp add: consume_user_message_def get_or_create_user_existing save_user_to_database_def
       FREE_MESSAGES_LIMIT_def CREDITS_PER_MESSAGE_def user1_def non_selezionata_def)

text \<open>
  C1. From a store without a negative balance, every sequence of
  \<open>consume_user_message\<close> calls and \<open>/ricarica\<close> messages that returns ends in a store
  without a negative balance; every state on the way is the end of a shorter sequence.
  A consumption takes \<open>CREDITS_PER_MESSAGE\<close> only from a balance that is at least that
  (\<open>credits_nonneg_consume\<close>), and a negative amount leaves the store as it is
  (\<open>recharge_negative_rejected\<close>).
\<close>

theorem credits_never_negative:
  "credits_nonneg users \<Longrightarrow> apply_operations ops users r = Some (users', r') \<Longrightarrow>
   credits_nonneg users'"
proof (induction ops arbitrary: users r)
  case Nil
  then show ?case by simp
next
  case (Cons x xs)
  from Cons.prems(2) obtain users1 r1 where
    s: "apply_operation x users r = Some (users1, r1)"
    and rest: "apply_operations xs users1 r1 = Some (users', r')"
    by (auto split: option.splits)
  have "credits_nonneg users1"
  proof (cases x)
    case (Consume t)
    with s Cons.prems(1) show ?thesis
      by (auto dest: credits_nonneg_consume)
  next
    case (Recharge m)
    with s Cons.prems(1) show ?thesis
      by (auto dest: credits_nonneg_recharge)
  qed
  with Cons.IH rest show ?case by blast
qed


theorem credits_never_negative_witness:
  "credits_nonneg (DAList.update 2 user1 DAList.empty) \<and>
   apply_operations [Consume 2, Recharge (admin_message (py_str ''/ricarica 50 ab12c'')), Consume 2]
      (DAList.update 2 user1 DAList.empty) rng0 =
     Some (DAList.update 2 (user1\<lparr>credits := 48\<rparr>) DAList.empty, rng0) \<and>
   credits_nonneg (DAList.update 2 (user1\<lparr>credits := 48\<rparr>) DAList.empty)"
proof -
  have n: "credits_nonneg (DAList.update 2 user1 DAList.empty)"
    by (simp add: credits_nonneg_def update.rep_eq empty.rep_eq user1_def)
  have a: "apply_operations [Consume 2, Recharge (admin_message (py_str ''/ricarica 50 ab12c'')), Consume 2]
      (DAList.update 2 user1 DAList.empty) rng0 =
     Some (DAList.update 2 (user1\<lparr>credits := 48\<rparr>) DAList.empty, rng0)"
    using consume_user1 [of 7 rng0] consume_user1 [of 50 rng0] recharge_user1 [of 5 rng0]
    by (simp add: user1_def)
  from credits_never_negative [OF n a] n a show ?thesis by simp
qed

text \<open>
  C4. Two \<open>/ricarica\<close> messages of administrators for the code of a stored record, with
  the amounts \<open>x\<close> and \<open>y\<close>, neither negative: after the first the record is the old
  one with credits \<open>x\<close>, after the second it is the old one with credits \<open>y\<close>, so the
  amount is set and not added, and code, city and free messages are as before. The
  answers report the new and the previous balance.
\<close>

theorem recharge_sets_absolute:
  assumes "is_admin (from_user_id m1)" and "is_admin (from_user_id m2)"
    and "py_split (message_text m1) = [cmd1, a1, k1]"
    and "py_split (message_text m2) = [cmd2, a2, k2]"
    and "py_int a1 = Some x" and "0 \<le> x" and "py_int a2 = Some y" and "0 \<le> y"
    and "py_upper k1 = code" and "py_upper k2 = code"
    and "find_user_by_unique_id code users = Some (t, cr, ct)"
  shows "\<exists>data. DAList.lookup users t = Some data \<and>
           handle_recharge_command m1 users r =
             Some (Credits_set code x cr, DAList.update t (data\<lparr>credits := x\<rparr>) users, r) \<and>
           handle_recharge_command m2 (DAList.update t (data\<lparr>credits := x\<rparr>) users) r =
             Some (Credits_set code y x, DAList.update t (data\<lparr>credits := y\<rparr>) users, r)"
proof -
  from recharge_effect [OF assms(1) assms(3) assms(5) assms(6), of users t cr ct r] assms(9) assms(11)
  obtain data where l: "DAList.lookup users t = Some data"
    and h1: "handle_recharge_command m1 users r =
               Some (Credits_set code x cr, DAList.update t (data\<lparr>credits := x\<rparr>) users, r)"
    by auto
  let ?users1 = "DAList.update t (data\<lparr>credits := x\<rparr>) users"
  have f1: "find_user_by_unique_id (py_upper k2) ?users1 = Some (t, x, city data)"
    using find_user_update_same_code [OF assms(11) l] assms(10) by simp
  from recharge_effect [OF assms(2) assms(4) assms(7) assms(8) f1, of r] assms(10)
  have "handle_recharge_command m2 ?users1 r =
          Some (Credits_set code y x, DAList.update t (data\<lparr>credits := y\<rparr>) users, r)"
    by auto
  with l h1 show ?thesis by blast
qed

theorem recharge_sets_absolute_witness:
  "is_admin (from_user_id (admin_message (py_str ''/ricarica 50 ab12c''))) \<and>
   py_split (message_text (admin_message (py_str ''/ricarica 50 ab12c''))) =
     [py_str ''/ricarica'', py_str ''50'', py_str ''ab12c''] \<and>
   py_split (message_text (admin_message (py_str ''/ricarica 10 AB12C''))) =
     [py_str ''/ricarica'', py_str ''10'', py_str ''AB12C''] \<and>
   py_int (py_str ''50'') = Some 50 \<and> py_int (py_str ''10'') = Some 10 \<and>
   py_upper (py_str ''ab12c'') = py_str ''AB12C'' \<and>
   find_user_by_unique_id (py_str ''AB12C'') (DAList.update 2 user1 DAList.empty) =
     Some (2, 7, py_str ''Roma'') \<and>
   handle_recharge_command (admin_message (py_str ''/ricarica 50 ab12c''))
       (DAList.update 2 user1 DAList.empty) rng0 =
     Some (Credits_set (py_str ''AB12C'') 50 7,
           DAList.update 2 (user1\<lparr>credits := 50\<rparr>) DAList.empty, rng0) \<and>
   handle_recharge_command (admin_message (py_str ''/ricarica 10 AB12C''))
       (DAList.update 2 (user1\<lparr>credits := 50\<rparr>) DAList.empty) rng0 =
     Some (Credits_set (py_str ''AB12C'') 10 50,
           DAList.update 2 (user1\<lparr>credits := 10\<rparr>) DAList.empty, rng0)"
proof -
  have s1: "py_split (message_text (admin_message (py_str ''/ricarica 50 ab12c''))) =
     [py_str ''/ricarica'', py_str ''50'', py_str ''ab12c'']"
    by (simp add: admin_message_def split_ricarica_50)
  have s2: "py_split (message_text (admin_message (py_str ''/ricarica 10 AB12C''))) =
     [py_str ''/ricarica'', py_str ''10'', py_str ''AB12C'']"
    by (simp add: admin_message_def split_ricarica_10)
  have f: "find_user_by_unique_id (py_str ''AB12C'') (DAList.update 2 user1 DAList.empty) =
     Some (2, 7, py_str ''Roma'')"
    using find_user1 [of 7] by (simp add: user1_def)
  have "(0::int) \<le> 50" and "(0::int) \<le> 10"
    by simp_all
  from recharge_sets_absolute [OF is_admin_admin_message is_admin_admin_message s1 s2
      py_int_50 this(1) py_int_10 this(2) py_upper_ab12c py_upper_AB12C f, of rng0]
  have "handle_recharge_command (admin_message (py_str ''/ricarica 50 ab12c''))
       (DAList.update 2 user1 DAList.empty) rng0 =
     Some (Credits_set (py_str ''AB12C'') 50 7,
           DAList.update 2 (user1\<lparr>credits := 50\<rparr>) DAList.empty, rng0) \<and>
   handle_recharge_command (admin_message (py_str ''/ricarica 10 AB12C''))
       (DAList.update 2 (user1\<lparr>credits := 50\<rparr>) DAList.empty) rng0 =
     Some (Credits_set (py_str ''AB12C'') 10 50,
           DAList.update 2 (user1\<lparr>credits := 10\<rparr>) DAList.empty, rng0)"
    by simp
  with s1 s2 f show ?thesis
    by (simp add: is_admin_admin_message py_int_50 py_int_10 py_upper_ab12c)
qed


section \<open>Replies: the keyword table\<close>

lemma random_choice_Some:
  "seq \<noteq> [] \<Longrightarrow> random_choice seq r = Some (seq ! (r 0 mod length seq), rng_skip 1 r)"
  by (simp add: random_choice_def)

lemma hd_insort_key:
  "hd (insort_key f x ys) = (if ys = [] \<or> f x \<le> f (hd ys) then x else hd ys)"
  by (cases ys) auto

lemma hd_sort_key_Cons:
  "hd (sort_key f (x # xs)) =
     (if xs = [] \<or> f x \<le> f (hd (sort_key f xs)) then x else hd (sort_key f xs))"
proof -
  have "sort_key f xs = [] \<longleftrightarrow> xs = []"
    by (metis length_0_conv length_sort)
  then show ?thesis
    by (simp add: hd_insort_key)
qed

lemma first_longest_match:
  fixes f :: "'b \<Rightarrow> int"
  assumes "filter P table \<noteq> []"
  shows "\<exists>pre w post. table = pre @ w # post \<and> P w \<and>
           hd (sort_key f (map g (filter P table))) = g w \<and>
           (\<forall>e\<in>set pre. P e \<longrightarrow> f (g w) < f (g e)) \<and>
           (\<forall>e\<in>set post. P e \<longrightarrow> f (g w) \<le> f (g e))"
  using assms
proof (induction table)
  case Nil
  then show ?case by simp
next
  case (Cons e table)
  show ?case
  proof (cases "filter P table = []")
    case True
    with Cons.prems have pe: "P e"
      by (auto split: if_splits)
    from True have none: "\<forall>x\<in>set table. \<not> P x"
      by (simp add: filter_empty_conv)
    have "e # table = [] @ e # table \<and> P e \<and>
            hd (sort_key f (map g (filter P (e # table)))) = g e \<and>
            (\<forall>x\<in>set []. P x \<longrightarrow> f (g e) < f (g x)) \<and>
            (\<forall>x\<in>set table. P x \<longrightarrow> f (g e) \<le> f (g x))"
      using pe True none by simp
    then show ?thesis by blast
  next
    case False
    from Cons.IH [OF False] obtain pre w post where
      split: "table = pre @ w # post" and pw: "P w"
      and hd: "hd (sort_key f (map g (filter P table))) = g w"
      and before: "\<forall>x\<in>set pre. P x \<longrightarrow> f (g w) < f (g x)"
      and after: "\<forall>x\<in>set post. P x \<longrightarrow> f (g w) \<le> f (g x)"
      by blast
    have ne: "map g (filter P table) \<noteq> []"
      using False by simp
    show ?thesis
    proof (cases "P e \<and> f (g e) \<le> f (g w)")
      case True
      then have "hd (sort_key f (map g (filter P (e # table)))) = g e"
        using ne hd hd_sort_key_Cons [of f "g e" "map g (filter P table)"] by simp
      moreover have "\<forall>x\<in>set table. P x \<longrightarrow> f (g e) \<le> f (g x)"
        using True split before after by auto
      ultimately have "e # table = [] @ e # table \<and> P e \<and>
            hd (sort_key f (map g (filter P (e # table)))) = g e \<and>
            (\<forall>x\<in>set []. P x \<longrightarrow> f (g e) < f (g x)) \<and>
            (\<forall>x\<in>set table. P x \<longrightarrow> f (g e) \<le> f (g x))"
        using True by simp
      then show ?thesis by blast
    next
      case False
      then have "hd (sort_key f (map g (filter P (e # table)))) = g w"
        using ne hd hd_sort_key_Cons [of f "g e" "map g (filter P table)"] by auto
      moreover have "\<forall>x\<in>set (e # pre). P x \<longrightarrow> f (g w) < f (g x)"
        using False before by auto
      ultimately have "e # table = (e # pre) @ w # post \<and> P w \<and>
            hd (sort_key f (map g (filter P (e # table)))) = g w \<and>
            (\<forall>x\<in>set (e # pre). P x \<longrightarrow> f (g w) < f (g x)) \<and>
            (\<forall>x\<in>set post. P x \<longrightarrow> f (g w) \<le> f (g x))"
        using split pw after by simp
      then show ?thesis by blast
    qed
  qed
qed

lemma response_patterns_nonempty:
  "(k, rs) \<in> set (response_patterns name) \<Longrightarrow> rs \<noteq> [] \<and> (\<forall>x\<in>set rs. x \<noteq> [])"
  by (auto simp: response_patterns_def)

lemma short_responses_nonempty: "short_responses \<noteq> [] \<and> (\<forall>x\<in>set short_responses. x \<noteq> [])"
  by (simp add: short_responses_def)

lemma long_responses_nonempty: "long_responses \<noteq> [] \<and> (\<forall>x\<in>set long_responses. x \<noteq> [])"
  by (simp add: long_responses_def)

lemma get_contextual_response_matched:
  assumes "\<exists>(k, rs)\<in>set (response_patterns name). py_in k (py_strip (py_lower prompt))"
  shows "\<exists>pre k rs post.
           response_patterns name = pre @ (k, rs) # post \<and>
           py_in k (py_strip (py_lower prompt)) \<and>
           (\<forall>(k', rs')\<in>set pre. py_in k' (py_strip (py_lower prompt)) \<longrightarrow> length k' < length k) \<and>
           (\<forall>(k', rs')\<in>set post. py_in k' (py_strip (py_lower prompt)) \<longrightarrow> length k' \<le> length k) \<and>
           get_contextual_response prompt name r = Some (rs ! (r 0 mod length rs), rng_skip 1 r) \<and>
           rs ! (r 0 mod length rs) \<in> set rs"
proof -
  let ?pl = "py_strip (py_lower prompt)"
  let ?P = "\<lambda>(keyword, responses). py_in keyword ?pl"
  let ?g = "\<lambda>(keyword, responses). (length keyword, responses)"
  let ?f = "\<lambda>x. - int (fst x)"
  let ?table = "response_patterns name"
  from assms have ne: "filter ?P ?table \<noteq> []"
    by (auto simp: filter_empty_conv)
  from first_longest_match [OF ne, of ?f ?g] obtain pre w post where
    split: "?table = pre @ w # post" and pw: "?P w"
    and hd: "hd (sort_key ?f (map ?g (filter ?P ?table))) = ?g w"
    and before: "\<forall>e\<in>set pre. ?P e \<longrightarrow> ?f (?g w) < ?f (?g e)"
    and after: "\<forall>e\<in>set post. ?P e \<longrightarrow> ?f (?g w) \<le> ?f (?g e)"
    by blast
  obtain k rs where w: "w = (k, rs)" by (cases w)
  from split w have "(k, rs) \<in> set ?table" by simp
  from response_patterns_nonempty [OF this] have rs: "rs \<noteq> []" by simp
  have "get_contextual_response prompt name r = random_choice rs r"
    using ne hd w by (simp add: get_contextual_response_def Let_def)
  with rs have res: "get_contextual_response prompt name r =
      Some (rs ! (r 0 mod length rs), rng_skip 1 r)"
    by (simp add: random_choice_Some)
  have "\<forall>(k', rs')\<in>set pre. py_in k' ?pl \<longrightarrow> length k' < length k"
    using before w by auto
  moreover have "\<forall>(k', rs')\<in>set post. py_in k' ?pl \<longrightarrow> length k' \<le> length k"
    using after w by auto
  moreover have "rs ! (r 0 mod length rs) \<in> set rs"
    using rs by simp
  ultimately show ?thesis
    using split w pw res by blast
qed

lemma py_in_py_str_Nil: "py_in (py_str a) (py_str []) = (a = [])"
  by (simp add: py_str_def)

lemma prefix_py_str: "prefix (py_str a) (py_str b) = prefix a b"
proof -
  have "inj (of_char :: char \<Rightarrow> nat)"
    by (rule injI) simp
  then show ?thesis
    unfolding py_str_def
    by (simp add: inj_on_def prefix_map_rightE map_mono_prefix prefix_def map_eq_append_conv)
qed

lemma py_in_py_str_Cons:
  "py_in (py_str a) (py_str (c # cs)) = (prefix a (c # cs) \<or> py_in (py_str a) (py_str cs))"
  using prefix_py_str [of a "c # cs"] by (simp add: py_str_def)

lemma response_keys:
  "map fst (response_patterns name) =
     map py_str [''ciao'', ''grazie'', ''bene'', ''come va'', ''come stai'', ''cosa fai'', ''bello'',
       ''casino'', ''scopo'', ''madre'', ''come ti chiami'', ''nome'', ''cosa mi faresti'',
       ''faresti'', ''voglia'', ''nudo'', ''sesso'']"
  by (simp only: response_patterns_def list.map fst_conv)

lemma response_keys_distinct: "distinct (map fst (response_patterns name))"
  unfolding response_keys by (simp add: distinct_map inj_on_def)

lemma response_key_come_stai:
  "\<exists>rs. (py_str ''come stai'', rs) \<in> set (response_patterns name)"
proof -
  have "py_str ''come stai'' \<in> set (map fst (response_patterns name))"
    unfolding response_keys by simp
  then show ?thesis
    by force
qed

lemma response_key_cases:
  assumes "(k, rs) \<in> set (response_patterns name)"
  obtains k0 where "k = py_str k0"
    and "k0 \<in> set [''ciao'', ''grazie'', ''bene'', ''come va'', ''come stai'', ''cosa fai'', ''bello'',
       ''casino'', ''scopo'', ''madre'', ''come ti chiami'', ''nome'', ''cosa mi faresti'',
       ''faresti'', ''voglia'', ''nudo'', ''sesso'']"
proof -
  from assms have "fst (k, rs) \<in> fst ` set (response_patterns name)"
    by (rule imageI)
  then have "k \<in> set (map fst (response_patterns name))"
    by simp
  then have "k \<in> py_str ` set [''ciao'', ''grazie'', ''bene'', ''come va'', ''come stai'',
       ''cosa fai'', ''bello'', ''casino'', ''scopo'', ''madre'', ''come ti chiami'', ''nome'',
       ''cosa mi faresti'', ''faresti'', ''voglia'', ''nudo'', ''sesso'']"
    unfolding response_keys by (simp only: set_map)
  then show ?thesis
    using that by (rule imageE)
qed

lemma lower_come_stai: "py_strip (py_lower (py_str ''come stai'')) = py_str ''come stai''"
  by (simp add: py_lower_def py_strip_def py_str_def is_space_def)

lemma only_come_stai:
  assumes "(k, rs) \<in> set (response_patterns name)" and "py_in k (py_str ''come stai'')"
  shows "k = py_str ''come stai''"
proof -
  from assms(1) obtain k0 where "k = py_str k0"
    and "k0 \<in> set [''ciao'', ''grazie'', ''bene'', ''come va'', ''come stai'', ''cosa fai'', ''bello'',
       ''casino'', ''scopo'', ''madre'', ''come ti chiami'', ''nome'', ''cosa mi faresti'',
       ''faresti'', ''voglia'', ''nudo'', ''sesso'']"
    by (rule response_key_cases)
  moreover have "\<forall>k0\<in>set [''ciao'', ''grazie'', ''bene'', ''come va'', ''come stai'', ''cosa fai'',
       ''bello'', ''casino'', ''scopo'', ''madre'', ''come ti chiami'', ''nome'', ''cosa mi faresti'',
       ''faresti'', ''voglia'', ''nudo'', ''sesso''].
       py_in (py_str k0) (py_str ''come stai'') \<longrightarrow> k0 = ''come stai''"
    by (simp add: py_in_py_str_Cons py_in_py_str_Nil)
  ultimately show ?thesis
    using assms(2) by blast
qed

text \<open>
  C8. When some keyword of the table occurs in the stripped, lower-cased input,
  \<open>get_contextual_response\<close> answers with one of the replies of a keyword that occurs in
  the input and is at least as long as every other keyword that occurs in it; among
  several of that length it is the first of the table. In particular the input
  "come stai" is answered from the replies of the keyword "come stai".
\<close>

theorem longest_keyword_wins:
  "((\<exists>(k, rs)\<in>set (response_patterns name). py_in k (py_strip (py_lower prompt))) \<longrightarrow>
     (\<exists>pre k rs post.
        response_patterns name = pre @ (k, rs) # post \<and>
        py_in k (py_strip (py_lower prompt)) \<and>
        (\<forall>(k', rs')\<in>set pre. py_in k' (py_strip (py_lower prompt)) \<longrightarrow> length k' < length k) \<and>
        (\<forall>(k', rs')\<in>set post. py_in k' (py_strip (py_lower prompt)) \<longrightarrow> length k' \<le> length k) \<and>
        get_contextual_response prompt name r = Some (rs ! (r 0 mod length rs), rng_skip 1 r) \<and>
        rs ! (r 0 mod length rs) \<in> set rs))
   \<and> (\<exists>rs. map_of (response_patterns name) (py_str ''come stai'') = Some rs \<and>
          get_contextual_response (py_str ''come stai'') name r =
            Some (rs ! (r 0 mod length rs), rng_skip 1 r) \<and>
          rs ! (r 0 mod length rs) \<in> set rs)"
proof (intro conjI impI)
  assume "\<exists>(k, rs)\<in>set (response_patterns name). py_in k (py_strip (py_lower prompt))"
  then show "\<exists>pre k rs post.
        response_patterns name = pre @ (k, rs) # post \<and>
        py_in k (py_strip (py_lower prompt)) \<and>
        (\<forall>(k', rs')\<in>set pre. py_in k' (py_strip (py_lower prompt)) \<longrightarrow> length k' < length k) \<and>
        (\<forall>(k', rs')\<in>set post. py_in k' (py_strip (py_lower prompt)) \<longrightarrow> length k' \<le> length k) \<and>
        get_contextual_response prompt name r = Some (rs ! (r 0 mod length rs), rng_skip 1 r) \<and>
        rs ! (r 0 mod length rs) \<in> set rs"
    by (rule get_contextual_response_matched)
next
  obtain rs0 where "(py_str ''come stai'', rs0) \<in> set (response_patterns name)"
    using response_key_come_stai by blast
  moreover have "py_in (py_str ''come stai'') (py_str ''come stai'')"
    by (simp add: py_in_py_str_Cons)
  ultimately have "\<exists>(k, rs)\<in>set (response_patterns name).
      py_in k (py_strip (py_lower (py_str ''come stai'')))"
    unfolding lower_come_stai by blast
  from get_contextual_response_matched [OF this, of r] obtain pre k rs post where
    split: "response_patterns name = pre @ (k, rs) # post"
    and m: "py_in k (py_str ''come stai'')"
    and res: "get_contextual_response (py_str ''come stai'') name r =
                Some (rs ! (r 0 mod length rs), rng_skip 1 r)"
    and el: "rs ! (r 0 mod length rs) \<in> set rs"
    unfolding lower_come_stai by blast
  from split have mem: "(k, rs) \<in> set (response_patterns name)"
    by simp
  from only_come_stai [OF mem m] have "k = py_str ''come stai''" .
  with mem have "map_of (response_patterns name) (py_str ''come stai'') = Some rs"
    using response_keys_distinct by simp
  with res el show "\<exists>rs. map_of (response_patterns name) (py_str ''come stai'') = Some rs \<and>
          get_contextual_response (py_str ''come stai'') name r =
            Some (rs ! (r 0 mod length rs), rng_skip 1 r) \<and>
          rs ! (r 0 mod length rs) \<in> set rs"
    by blast
qed

lemma lower_ciao_come_stai:
  "py_strip (py_lower (py_str '' Ciao, come STAI? '')) = py_str ''ciao, come stai?''"
  by (simp add: py_lower_def py_strip_def py_str_def is_space_def)

lemma matches_ciao_come_stai:
  assumes "(k, rs) \<in> set (response_patterns name)" and "py_in k (py_str ''ciao, come stai?'')"
  shows "k = py_str ''ciao'' \<or> k = py_str ''come stai''"
proof -
  from assms(1) obtain k0 where "k = py_str k0"
    and "k0 \<in> set [''ciao'', ''grazie'', ''bene'', ''come va'', ''come stai'', ''cosa fai'', ''bello'',
       ''casino'', ''scopo'', ''madre'', ''come ti chiami'', ''nome'', ''cosa mi faresti'',
       ''faresti'', ''voglia'', ''nudo'', ''sesso'']"
    by (rule response_key_cases)
  moreover have "\<forall>k0\<in>set [''ciao'', ''grazie'', ''bene'', ''come va'', ''come stai'', ''cosa fai'',
       ''bello'', ''casino'', ''scopo'', ''madre'', ''come ti chiami'', ''nome'', ''cosa mi faresti'',
       ''faresti'', ''voglia'', ''nudo'', ''sesso''].
       py_in (py_str k0) (py_str ''ciao, come stai?'') \<longrightarrow> k0 = ''ciao'' \<or> k0 = ''come stai''"
    by (simp add: py_in_py_str_Cons py_in_py_str_Nil)
  ultimately show ?thesis
    using assms(2) by blast
qed

theorem longest_keyword_wins_witness:
  "py_strip (py_lower (py_str '' Ciao, come STAI? '')) = py_str ''ciao, come stai?'' \<and>
   py_in (py_str ''ciao'') (py_str ''ciao, come stai?'') \<and>
   py_in (py_str ''come stai'') (py_str ''ciao, come stai?'') \<and>
   (\<exists>rs. map_of (response_patterns (py_str ''Sofia'')) (py_str ''come stai'') = Some rs \<and>
      get_contextual_response (py_str '' Ciao, come STAI? '') (py_str ''Sofia'') rng0 =
        Some (rs ! (rng0 0 mod length rs), rng_skip 1 rng0))"
proof -
  let ?table = "response_patterns (py_str ''Sofia'')"
  have m1: "py_in (py_str ''ciao'') (py_str ''ciao, come stai?'')"
    and m2: "py_in (py_str ''come stai'') (py_str ''ciao, come stai?'')"
    by (simp_all add: py_in_py_str_Cons)
  obtain rs0 where e0: "(py_str ''come stai'', rs0) \<in> set ?table"
    using response_key_come_stai by blast
  with m2 have h: "\<exists>(k, rs)\<in>set ?table.
       py_in k (py_strip (py_lower (py_str '' Ciao, come STAI? '')))"
    unfolding lower_ciao_come_stai by blast
  from longest_keyword_wins [of "py_str ''Sofia''" "py_str '' Ciao, come STAI? ''" rng0,
      THEN conjunct1, rule_format, OF h]
  obtain pre k rs post where
    split: "?table = pre @ (k, rs) # post"
    and m: "py_in k (py_str ''ciao, come stai?'')"
    and before: "\<forall>(k', rs')\<in>set pre. py_in k' (py_str ''ciao, come stai?'') \<longrightarrow> length k' < length k"
    and after: "\<forall>(k', rs')\<in>set post. py_in k' (py_str ''ciao, come stai?'') \<longrightarrow> length k' \<le> length k"
    and res: "get_contextual_response (py_str '' Ciao, come STAI? '') (py_str ''Sofia'') rng0 =
                Some (rs ! (rng0 0 mod length rs), rng_skip 1 rng0)"
    unfolding lower_ciao_come_stai by blast
  from split have mem: "(k, rs) \<in> set ?table"
    by simp
  have k: "k = py_str ''come stai''"
  proof (rule ccontr)
    assume n: "k \<noteq> py_str ''come stai''"
    with matches_ciao_come_stai [OF mem m] have c: "k = py_str ''ciao''"
      by simp
    from e0 split n have "(py_str ''come stai'', rs0) \<in> set pre \<or> (py_str ''come stai'', rs0) \<in> set post"
      by auto
    with before after m2 have "length (py_str ''come stai'') \<le> length k"
      by fastforce
    with c show False
      by (simp add: py_str_def)
  qed
  with mem have "map_of ?table (py_str ''come stai'') = Some rs"
    using response_keys_distinct by simp
  with res have "\<exists>rs. map_of ?table (py_str ''come stai'') = Some rs \<and>
      get_contextual_response (py_str '' Ciao, come STAI? '') (py_str ''Sofia'') rng0 =
        Some (rs ! (rng0 0 mod length rs), rng_skip 1 rng0)"
    by blast
  with lower_ciao_come_stai m1 m2 show ?thesis
    by (intro conjI)
qed


section \<open>Replies: the cascade\<close>

lemma get_contextual_response_unmatched:
  assumes "\<forall>(k, rs)\<in>set (response_patterns name). \<not> py_in k (py_strip (py_lower prompt))"
  shows "get_contextual_response prompt name r =
           (if length (py_strip (py_lower prompt)) < 10 then random_choice short_responses r
            else random_choice long_responses r)"
proof -
  from assms have
    "filter (\<lambda>(keyword, responses). py_in keyword (py_strip (py_lower prompt)))
       (response_patterns name) = []"
    by (auto simp: filter_empty_conv)
  then show ?thesis
    by (simp add: get_contextual_response_def)
qed

lemma get_contextual_response_nonempty:
  "\<exists>reply r'. get_contextual_response prompt name r = Some (reply, r') \<and> reply \<noteq> []"
proof (cases "\<exists>(k, rs)\<in>set (response_patterns name). py_in k (py_strip (py_lower prompt))")
  case True
  from get_contextual_response_matched [OF True, of r] obtain pre k rs post where
    split: "response_patterns name = pre @ (k, rs) # post"
    and res: "get_contextual_response prompt name r = Some (rs ! (r 0 mod length rs), rng_skip 1 r)"
    and el: "rs ! (r 0 mod length rs) \<in> set rs"
    by blast
  from split have "(k, rs) \<in> set (response_patterns name)"
    by simp
  from response_patterns_nonempty [OF this] el have "rs ! (r 0 mod length rs) \<noteq> []"
    by blast
  with res show ?thesis
    by blast
next
  case False
  then have u: "\<forall>(k, rs)\<in>set (response_patterns name). \<not> py_in k (py_strip (py_lower prompt))"
    by blast
  show ?thesis
  proof (cases "length (py_strip (py_lower prompt)) < 10")
    case True
    with get_contextual_response_unmatched [OF u, of r] short_responses_nonempty
    have "get_contextual_response prompt name r =
            Some (short_responses ! (r 0 mod length short_responses), rng_skip 1 r)"
      and "short_responses ! (r 0 mod length short_responses) \<in> set short_responses"
      by (simp_all add: random_choice_Some)
    with short_responses_nonempty show ?thesis
      by blast
  next
    case False
    with get_contextual_response_unmatched [OF u, of r] long_responses_nonempty
    have "get_contextual_response prompt name r =
            Some (long_responses ! (r 0 mod length long_responses), rng_skip 1 r)"
      and "long_responses ! (r 0 mod length long_responses) \<in> set long_responses"
      by (simp_all add: random_choice_Some)
    with long_responses_nonempty show ?thesis
      by blast
  qed
qed

lemma query_fallback_on_error:
  "generated_text outcome = None \<Longrightarrow>
   query_huggingface_ai prompt name outcome r = get_contextual_response prompt name r"
  by (simp add: query_huggingface_ai_def)

lemma query_fallback_on_unusable:
  "generated_text outcome = Some g \<Longrightarrow>
   \<not> (3 < length (extract_ai_response name g) \<and> length (extract_ai_response name g) < 200) \<Longrightarrow>
   query_huggingface_ai prompt name outcome r = get_contextual_response prompt name r"
  by (auto simp: query_huggingface_ai_def Let_def)

lemma query_nonempty:
  "\<exists>reply r'. query_huggingface_ai prompt name outcome r = Some (reply, r') \<and> reply \<noteq> []"
proof (cases "generated_text outcome")
  case None
  then show ?thesis
    using get_contextual_response_nonempty [of prompt name r]
    by (simp add: query_fallback_on_error)
next
  case (Some g)
  show ?thesis
  proof (cases "3 < length (extract_ai_response name g) \<and> length (extract_ai_response name g) < 200")
    case True
    with Some show ?thesis
      by (auto simp: query_huggingface_ai_def Let_def)
  next
    case False
    from query_fallback_on_unusable [OF Some False] show ?thesis
      using get_contextual_response_nonempty [of prompt name r] by simp
  qed
qed

lemma generated_text_errors:
  "generated_text Request_error = None"
  "status \<noteq> 200 \<Longrightarrow> generated_text (Response status body) = None"
  "generated_text (Response status None) = None"
  by (auto simp: generated_text_def split: option.splits json.splits list.splits)

text \<open>
  C9. \<open>query_huggingface_ai\<close> returns a reply that is not empty, for every input, persona
  and outcome of the request, and so does \<open>get_contextual_response\<close>. A failed request, a
  body that is not JSON and a status other than 200 give no generated text; without a
  generated text, and with one whose extracted reply is not between 4 and 199 characters
  long, the reply is that of \<open>get_contextual_response\<close>. An input in which no keyword
  occurs is answered from \<open>short_responses\<close> when its stripped, lower-cased length is
  below 10 and from \<open>long_responses\<close> otherwise.
\<close>

theorem reply_never_empty:
  "(\<exists>reply r'. query_huggingface_ai prompt name outcome r = Some (reply, r') \<and> reply \<noteq> []) \<and>
   (\<exists>reply r'. get_contextual_response prompt name r = Some (reply, r') \<and> reply \<noteq> []) \<and>
   generated_text Request_error = None \<and>
   generated_text (Response status None) = None \<and>
   (status \<noteq> 200 \<longrightarrow> generated_text (Response status body) = None) \<and>
   (generated_text outcome = None \<longrightarrow>
      query_huggingface_ai prompt name outcome r = get_contextual_response prompt name r) \<and>
   (\<forall>g. generated_text outcome = Some g \<and>
        \<not> (3 < length (extract_ai_response name g) \<and> length (extract_ai_response name g) < 200) \<longrightarrow>
      query_huggingface_ai prompt name outcome r = get_contextual_response prompt name r) \<and>
   ((\<forall>(k, rs)\<in>set (response_patterns name). \<not> py_in k (py_strip (py_lower prompt))) \<longrightarrow>
      get_contextual_response prompt name r =
        (if length (py_strip (py_lower prompt)) < 10 then random_choice short_responses r
         else random_choice long_responses r))"
proof -
  have a: "\<exists>reply r'. query_huggingface_ai prompt name outcome r = Some (reply, r') \<and> reply \<noteq> []"
    by (rule query_nonempty)
  have b: "\<exists>reply r'. get_contextual_response prompt name r = Some (reply, r') \<and> reply \<noteq> []"
    by (rule get_contextual_response_nonempty)
  have c: "generated_text Request_error = None"
    and d: "generated_text (Response status None) = None"
    and e: "status \<noteq> 200 \<longrightarrow> generated_text (Response status body) = None"
    by (simp_all add: generated_text_errors)
  have f: "generated_text outcome = None \<longrightarrow>
      query_huggingface_ai prompt name outcome r = get_contextual_response prompt name r"
    by (simp add: query_fallback_on_error)
  have g: "\<forall>g. generated_text outcome = Some g \<and>
        \<not> (3 < length (extract_ai_response name g) \<and> length (extract_ai_response name g) < 200) \<longrightarrow>
      query_huggingface_ai prompt name outcome r = get_contextual_response prompt name r"
    using query_fallback_on_unusable by blast
  have h: "(\<forall>(k, rs)\<in>set (response_patterns name). \<not> py_in k (py_strip (py_lower prompt))) \<longrightarrow>
      get_contextual_response prompt name r =
        (if length (py_strip (py_lower prompt)) < 10 then random_choice short_responses r
         else random_choice long_responses r)"
    using get_contextual_response_unmatched by blast
  show ?thesis
    by (intro conjI a b c d e f g h)
qed

lemma no_key_in_empty:
  "\<forall>(k, rs)\<in>set (response_patterns name). \<not> py_in k (py_strip (py_lower []))"
proof -
  have "k \<noteq> []" if "(k, rs) \<in> set (response_patterns name)" for k rs
    using that by (rule response_key_cases) auto
  then show ?thesis
    by (auto simp: py_strip_def py_lower_def)
qed

theorem reply_never_empty_witness:
  "(503::int) \<noteq> 200 \<and>
   generated_text (Response 503 None) = None \<and>
   filter (\<lambda>(keyword, responses). py_in keyword (py_strip (py_lower [])))
     (response_patterns (py_str ''Sofia'')) = [] \<and>
   query_huggingface_ai [] (py_str ''Sofia'') (Response 503 None) rng0 =
     Some (py_str ''Dimmi di pi'' @ [249] @ py_str '', baby! '' @ [128520], rng0) \<and>
   py_str ''Dimmi di pi'' @ [249] @ py_str '', baby! '' @ [128520] \<noteq> []"
proof -
  note t = reply_never_empty [of "[]" "py_str ''Sofia''" "Response 503 None" rng0 503 None]
  have n: "generated_text (Response 503 None) = None"
    using t by blast
  have u: "\<forall>(k, rs)\<in>set (response_patterns (py_str ''Sofia'')). \<not> py_in k (py_strip (py_lower []))"
    by (rule no_key_in_empty)
  then have v: "filter (\<lambda>(keyword, responses). py_in keyword (py_strip (py_lower [])))
     (response_patterns (py_str ''Sofia'')) = []"
    by (auto simp: filter_empty_conv)
  from t n have "query_huggingface_ai [] (py_str ''Sofia'') (Response 503 None) rng0 =
      get_contextual_response [] (py_str ''Sofia'') rng0"
    by blast
  also from t u have "\<dots> = (if length (py_strip (py_lower [])) < 10
      then random_choice short_responses rng0 else random_choice long_responses rng0)"
    by blast
  also have "\<dots> = Some (py_str ''Dimmi di pi'' @ [249] @ py_str '', baby! '' @ [128520], rng0)"
    by (simp add: py_strip_def py_lower_def random_choice_def short_responses_def rng0_def
          rng_skip_def)
  finally show ?thesis
    using n v by simp
qed

end
